theory Spec2Isabelle
  imports Main
begin

section \<open>Data model\<close>

text \<open>
  The job row of \<^verbatim>\<open>src/database.ts\<close> (interface \<^verbatim>\<open>ProcessorJob\<close>) and the
  configuration fields of \<^verbatim>\<open>ScraperProcessor\<close> that the store reads.
  JavaScript numbers that count (version, attempt) are integers; a date, an ISO-8601 string
  in the source, is its number of milliseconds since the epoch, so that
  \<^verbatim>\<open>new Date(a) < new Date(b)\<close> is \<open><\<close> on \<open>int\<close>. An optional field is an \<open>option\<close>.
  Both records have a field \<open>version\<close>: it is always written with its record's name.
\<close>

record ScraperProcessor =
  name :: string
  version :: int
  intervalMs :: int
  maxAttempts :: int

record ProcessorJob =
  url :: string
  version :: int
  attempt :: int
  date :: int
  processor :: string
  error :: "string option"

text \<open>
  Everything the source throws is an \<^verbatim>\<open>Error\<close> with a message. \<open>JobNotFound u p\<close> is
  \<^verbatim>\<open>Job for URL u and processor p not found\<close>, \<open>HttpError s t u\<close> is
  \<^verbatim>\<open>HTTP error! status: s t for URL: u\<close>, and \<open>Thrown m\<close> is any error raised by a
  collaborator (the network, a processing callback, \<^verbatim>\<open>JSON.parse\<close>).
\<close>

datatype error = JobNotFound string string | HttpError nat string string | Thrown string

section \<open>The job store: class Database\<close>

text \<open>
  \<^verbatim>\<open>add\<close> takes \<^verbatim>\<open>string | string[]\<close>.
\<close>

datatype urls_arg = Single string | Many "string list"

text \<open>
  The state of a store. \<open>pendingUrls\<close> is the \<^verbatim>\<open>Map<ScraperProcessor, string[]>\<close>,
  an association list in insertion order (the order in which \<^verbatim>\<open>entries()\<close> iterates);
  a processor object is identified with its configuration, so two stage objects with the
  same name, version, interval and maximum are one key here and two in the source.
  \<open>jobs\<close> holds the rows (\<^verbatim>\<open>InMemoryDatabase.jobs\<close>, or the rows of the SQL table). \<open>newJobs\<close> lists the
  \<^verbatim>\<open>NEW_JOBS\<close> events emitted so far, oldest first. \<open>flushScheduled\<close> says that the
  debounced trigger has been called and has not fired yet.
\<close>

record Database =
  pendingUrls :: "(ScraperProcessor \<times> string list) list"
  jobs :: "ProcessorJob list"
  newJobs :: "ScraperProcessor list"
  flushScheduled :: bool

text \<open>\<^verbatim>\<open>Map.prototype.set\<close>: an existing key keeps its place, a new key goes last.\<close>

fun map_set :: "'k \<Rightarrow> 'v \<Rightarrow> ('k \<times> 'v) list \<Rightarrow> ('k \<times> 'v) list" where
  "map_set k v [] = [(k, v)]"
| "map_set k v ((k', v') # m) = (if k' = k then (k, v) # m else (k', v') # map_set k v m)"

text \<open>
  \<^verbatim>\<open>Database.add\<close>: fetch the processor's pending array (creating an empty one), push the
  URLs onto it, call the debounced trigger.
\<close>

definition add :: "urls_arg \<Rightarrow> ScraperProcessor \<Rightarrow> Database \<Rightarrow> Database" where
  "add urls p db =
     (let pending = (case map_of (pendingUrls db) p of None \<Rightarrow> [] | Some us \<Rightarrow> us);
          pushed = (case urls of Many us \<Rightarrow> pending @ us | Single u \<Rightarrow> pending @ [u])
      in db\<lparr>pendingUrls := map_set p pushed (pendingUrls db), flushScheduled := True\<rparr>)"

text \<open>
  \<^verbatim>\<open>InMemoryDatabase.batchInsertUrls\<close>: keep the URLs for which no stored job has the same
  URL and processor name, and push one fresh row for each URL kept. \<open>now\<close> is the clock
  reading of \<^verbatim>\<open>new Date()\<close>.
\<close>

definition InMemory_batchInsertUrls ::
  "string list \<Rightarrow> ScraperProcessor \<Rightarrow> int \<Rightarrow> ProcessorJob list \<Rightarrow> ProcessorJob list" where
  "InMemory_batchInsertUrls urls p now js =
     (let newUrls = filter (\<lambda>u. \<not> list_ex (\<lambda>j. url j = u \<and> processor j = name p) js) urls
      in js @ map (\<lambda>u. \<lparr>url = u, ProcessorJob.version = ScraperProcessor.version p, attempt = 0,
                          date = now, processor = name p, error = None\<rparr>) newUrls)"

text \<open>
  The callback given to \<^verbatim>\<open>debounce\<close>: for every entry of the pending map with a
  non-empty array, insert the batch and, once inserted, emit \<^verbatim>\<open>NEW_JOBS\<close> for the
  processor; then clear the map. The abstract \<^verbatim>\<open>batchInsertUrls\<close> is the parameter
  \<open>ins\<close>.
\<close>

fun flushEntries ::
  "(string list \<Rightarrow> ScraperProcessor \<Rightarrow> int \<Rightarrow> ProcessorJob list \<Rightarrow> ProcessorJob list) \<Rightarrow> int \<Rightarrow>
   (ScraperProcessor \<times> string list) list \<Rightarrow> Database \<Rightarrow> Database" where
  "flushEntries ins now [] db = db"
| "flushEntries ins now ((p, urls) # rest) db =
     (if urls = [] then flushEntries ins now rest db
      else flushEntries ins now rest
             (db\<lparr>jobs := ins urls p now (jobs db), newJobs := newJobs db @ [p]\<rparr>))"

definition insertManyUrlsWrapper ::
  "(string list \<Rightarrow> ScraperProcessor \<Rightarrow> int \<Rightarrow> ProcessorJob list \<Rightarrow> ProcessorJob list) \<Rightarrow> int \<Rightarrow>
   Database \<Rightarrow> Database" where
  "insertManyUrlsWrapper ins now db = (flushEntries ins now (pendingUrls db) db)\<lparr>pendingUrls := []\<rparr>"

text \<open>
  Modelled from the spec: \<^verbatim>\<open>debounce\<close> of \<^verbatim>\<open>./helpers\<close>, which is not among the sources.
  Calls of the debounced trigger coalesce into one later run of the callback; when the
  timer fires the callback runs once and the trigger is idle again.
\<close>

definition debounceFires ::
  "(string list \<Rightarrow> ScraperProcessor \<Rightarrow> int \<Rightarrow> ProcessorJob list \<Rightarrow> ProcessorJob list) \<Rightarrow> int \<Rightarrow>
   Database \<Rightarrow> Database" where
  "debounceFires ins now db =
     (if flushScheduled db then (insertManyUrlsWrapper ins now db)\<lparr>flushScheduled := False\<rparr> else db)"

text \<open>
  \<^verbatim>\<open>Database.close\<close>: insert every non-empty pending batch, then clear the map. Nothing
  is emitted and the debounced trigger is left as it is.
\<close>

fun closeEntries ::
  "(string list \<Rightarrow> ScraperProcessor \<Rightarrow> int \<Rightarrow> ProcessorJob list \<Rightarrow> ProcessorJob list) \<Rightarrow> int \<Rightarrow>
   (ScraperProcessor \<times> string list) list \<Rightarrow> Database \<Rightarrow> Database" where
  "closeEntries ins now [] db = db"
| "closeEntries ins now ((p, urls) # rest) db =
     (if urls = [] then closeEntries ins now rest db
      else closeEntries ins now rest (db\<lparr>jobs := ins urls p now (jobs db)\<rparr>))"

definition close ::
  "(string list \<Rightarrow> ScraperProcessor \<Rightarrow> int \<Rightarrow> ProcessorJob list \<Rightarrow> ProcessorJob list) \<Rightarrow> int \<Rightarrow>
   Database \<Rightarrow> Database" where
  "close ins now db = (closeEntries ins now (pendingUrls db) db)\<lparr>pendingUrls := []\<rparr>"

text \<open>A store that has seen nothing yet.\<close>

definition emptyDatabase :: Database where
  "emptyDatabase = \<lparr>pendingUrls = [], jobs = [], newJobs = [], flushScheduled = False\<rparr>"

text \<open>One row per (URL, processor name) pair.\<close>

definition uniqueJobs :: "ProcessorJob list \<Rightarrow> bool" where
  "uniqueJobs js = distinct (map (\<lambda>j. (url j, processor j)) js)"

text \<open>How many rows the store holds for a URL and a processor name.\<close>

definition rowCount :: "string \<Rightarrow> string \<Rightarrow> ProcessorJob list \<Rightarrow> nat" where
  "rowCount u n js = length (filter (\<lambda>j. url j = u \<and> processor j = n) js)"


subsection \<open>InMemoryDatabase: query and update\<close>

text \<open>
  The truthiness of \<^verbatim>\<open>job.error\<close>, an optional string: \<^verbatim>\<open>undefined\<close> and the empty
  string are falsy.
\<close>

fun truthy :: "string option \<Rightarrow> bool" where
  "truthy None = False"
| "truthy (Some s) = (s \<noteq> [])"

text \<open>The second filter of \<^verbatim>\<open>InMemoryDatabase.query\<close>; \<open>now\<close> is \<^verbatim>\<open>Date.now()\<close>.\<close>

fun InMemory_due :: "ScraperProcessor \<Rightarrow> int \<Rightarrow> ProcessorJob \<Rightarrow> bool" where
  "InMemory_due p now job =
     (attempt job = 0 \<or>
      ProcessorJob.version job \<noteq> ScraperProcessor.version p \<or>
      (truthy (error job) \<and> attempt job < maxAttempts p) \<or>
      date job < now - intervalMs p)"

text \<open>
  \<^verbatim>\<open>InMemoryDatabase.query\<close>: three filters over the stored rows, in storage order, with
  no sorting and no limit.
\<close>

definition InMemory_query ::
  "ScraperProcessor \<Rightarrow> string set \<Rightarrow> int \<Rightarrow> ProcessorJob list \<Rightarrow> ProcessorJob list" where
  "InMemory_query p currentlyProcessingUrls now js =
     filter (\<lambda>job. url job \<notin> currentlyProcessingUrls)
       (filter (InMemory_due p now)
          (filter (\<lambda>job. processor job = name p) js))"

text \<open>
  \<^verbatim>\<open>InMemoryDatabase.update\<close>: \<^verbatim>\<open>find\<close> the first row with the job's URL and processor
  and assign its version, attempt, date and error in place; throw when there is none.
  \<open>assignFirst\<close> is the assignment to the object that \<^verbatim>\<open>find\<close> returned.
\<close>

fun assignFirst :: "('a \<Rightarrow> bool) \<Rightarrow> ('a \<Rightarrow> 'a) \<Rightarrow> 'a list \<Rightarrow> 'a list" where
  "assignFirst P f [] = []"
| "assignFirst P f (x # xs) = (if P x then f x # xs else x # assignFirst P f xs)"

definition InMemory_update :: "ProcessorJob \<Rightarrow> ProcessorJob list \<Rightarrow> error + ProcessorJob list" where
  "InMemory_update job js =
     (case find (\<lambda>j. url j = url job \<and> processor j = processor job) js of
        Some existing \<Rightarrow>
          Inr (assignFirst (\<lambda>j. url j = url job \<and> processor j = processor job)
                 (\<lambda>existing. existing\<lparr>ProcessorJob.version := ProcessorJob.version job,
                                       attempt := attempt job, date := date job, error := error job\<rparr>) js)
      | None \<Rightarrow> Inl (JobNotFound (url job) (processor job)))"

subsection \<open>BunSqlDatabase\<close>

text \<open>
  The table has the primary key (url, processor); its rows are a list in insertion order.
  The \<^verbatim>\<open>WHERE\<close> clause of \<^verbatim>\<open>BunSqlDatabase.query\<close>. The date column holds the ISO
  strings the code writes, whose order is the order of the instants they denote.
\<close>

fun BunSql_where :: "ScraperProcessor \<Rightarrow> int \<Rightarrow> ProcessorJob \<Rightarrow> bool" where
  "BunSql_where p now row =
     (processor row = name p \<and>
      (attempt row = 0 \<or>
       (error row \<noteq> None \<and> attempt row < maxAttempts p) \<or>
       ProcessorJob.version row \<noteq> ScraperProcessor.version p \<or>
       date row < now - intervalMs p))"

text \<open>
  \<^verbatim>\<open>BunSqlDatabase.query\<close>: \<^verbatim>\<open>SELECT ... WHERE ... ORDER BY date ASC LIMIT 20\<close>. The
  override declares the parameter \<^verbatim>\<open>processor\<close> only: the set of URLs in flight that
  the caller passes as second argument is not read. Rows with equal dates keep their
  table order (SQL leaves their order open). The cutoff \<open>now - intervalMs p\<close> is taken
  to lie in the range of \<^verbatim>\<open>Date\<close>; outside it \<^verbatim>\<open>toISOString\<close> throws a RangeError
  and the call rejects, which this function does not show.
\<close>

fun BunSql_query ::
  "ScraperProcessor \<Rightarrow> string set \<Rightarrow> int \<Rightarrow> ProcessorJob list \<Rightarrow> ProcessorJob list" where
  "BunSql_query p _ now rows = take 20 (sort_key date (filter (BunSql_where p now) rows))"

text \<open>
  \<^verbatim>\<open>BunSqlDatabase.batchInsertUrls\<close>: \<^verbatim>\<open>INSERT OR IGNORE\<close> of one fresh row per URL,
  in order; a row whose (url, processor) is already in the table, also from earlier in the
  same statement, is ignored.
\<close>

fun BunSql_batchInsertUrls ::
  "string list \<Rightarrow> ScraperProcessor \<Rightarrow> int \<Rightarrow> ProcessorJob list \<Rightarrow> ProcessorJob list" where
  "BunSql_batchInsertUrls [] p now rows = rows"
| "BunSql_batchInsertUrls (u # urls) p now rows =
     (if list_ex (\<lambda>row. url row = u \<and> processor row = name p) rows
      then BunSql_batchInsertUrls urls p now rows
      else BunSql_batchInsertUrls urls p now
             (rows @ [\<lparr>url = u, ProcessorJob.version = ScraperProcessor.version p, attempt = 0,
                        date = now, processor = name p, error = None\<rparr>]))"

text \<open>
  \<^verbatim>\<open>BunSqlDatabase.update\<close>: \<^verbatim>\<open>UPDATE ... SET ... WHERE url = ... AND processor = ...\<close>.
  The statement sets the columns that the job object has (url and processor to the values
  the row already has; a job object without \<^verbatim>\<open>error\<close> names no error column). The
  number of rows it changed is not read: the promise resolves also when it is zero.
\<close>

definition BunSql_update :: "ProcessorJob \<Rightarrow> ProcessorJob list \<Rightarrow> error + ProcessorJob list" where
  "BunSql_update job rows =
     Inr (map (\<lambda>row. if url row = url job \<and> processor row = processor job
                      then row\<lparr>ProcessorJob.version := ProcessorJob.version job, attempt := attempt job,
                               date := date job,
                               error := (case error job of None \<Rightarrow> error row | Some e \<Rightarrow> Some e)\<rparr>
                      else row) rows)"

section \<open>The worker: ScraperProcessor.processJob\<close>

text \<open>
  The processing callbacks of a stage, each optional. A callback returns nothing and may
  throw; what else it does (it may enqueue URLs on another stage) is outside this model.
  \<open>'j\<close> is the type of parsed JSON.
\<close>

record 'j Callbacks =
  processRaw :: "(string \<Rightarrow> string \<Rightarrow> error + unit) option"
  processString :: "(string \<Rightarrow> string \<Rightarrow> error + unit) option"
  processJson :: "('j \<Rightarrow> string \<Rightarrow> error + unit) option"

text \<open>
  \<^verbatim>\<open>processData\<close>: the callbacks that are configured run in the order raw, string, JSON;
  the first error ends the call. A buffer is its bytes as a string, and \<open>parse\<close> is
  \<^verbatim>\<open>JSON.parse\<close>.
\<close>

definition processData ::
  "'j Callbacks \<Rightarrow> (string \<Rightarrow> error + 'j) \<Rightarrow> string \<Rightarrow> string \<Rightarrow> error + unit" where
  "processData cbs parse u data =
     (case (case processRaw cbs of None \<Rightarrow> Inr () | Some f \<Rightarrow> f data u) of
        Inl err \<Rightarrow> Inl err
      | Inr _ \<Rightarrow>
          (case (case processString cbs of None \<Rightarrow> Inr () | Some f \<Rightarrow> f data u) of
             Inl err \<Rightarrow> Inl err
           | Inr _ \<Rightarrow>
               (case processJson cbs of
                  None \<Rightarrow> Inr ()
                | Some f \<Rightarrow> (case parse data of Inl err \<Rightarrow> Inl err | Inr json \<Rightarrow> f json u))))"

text \<open>
  What \<^verbatim>\<open>processJob\<close> reads and writes: the rows of the store, the set of URLs in
  flight, and the \<^verbatim>\<open>JOB_PROCESSED\<close> events emitted so far.
\<close>

record Worker =
  database :: Database
  currentlyProcessingUrls :: "string set"
  jobProcessed :: "ProcessorJob list"

text \<open>
  \<^verbatim>\<open>processJob\<close>. \<open>upd\<close> is the store's \<^verbatim>\<open>update\<close>, \<open>download\<close> the downloader's
  \<^verbatim>\<open>download\<close>, \<open>now\<close> the clock. The result is the error the call rejects with, if
  any, and the state it leaves. The inner \<^verbatim>\<open>try\<close> covers the callbacks and the success
  update; its \<^verbatim>\<open>catch\<close> rethrows or writes the failure update; the \<^verbatim>\<open>finally\<close> runs on
  every path.
\<close>

definition processJob ::
  "ScraperProcessor \<Rightarrow> (ProcessorJob \<Rightarrow> ProcessorJob list \<Rightarrow> error + ProcessorJob list) \<Rightarrow>
   (string \<Rightarrow> error + string) \<Rightarrow> 'j Callbacks \<Rightarrow> (string \<Rightarrow> error + 'j) \<Rightarrow> int \<Rightarrow>
   ProcessorJob \<Rightarrow> bool \<Rightarrow> Worker \<Rightarrow> error option \<times> Worker" where
  "processJob this upd download cbs parse now job rethrow w =
     (let w1 = w\<lparr>currentlyProcessingUrls := insert (url job) (currentlyProcessingUrls w)\<rparr>;
          (thrown, w2) =
            (case download (url job) of
               Inl err \<Rightarrow> (if rethrow then (Some err, w1) else (None, w1))
             | Inr data \<Rightarrow>
                 (case (case processData cbs parse (url job) data of
                          Inl err \<Rightarrow> Inl err
                        | Inr _ \<Rightarrow>
                            upd \<lparr>url = url job, ProcessorJob.version = ScraperProcessor.version this,
                                 attempt = 1, date = now, processor = name this, error = None\<rparr>
                              (jobs (database w1))) of
                    Inr js \<Rightarrow> (None, w1\<lparr>database := (database w1)\<lparr>jobs := js\<rparr>\<rparr>)
                  | Inl err \<Rightarrow>
                      (if rethrow then (Some err, w1)
                       else (case upd \<lparr>url = url job, ProcessorJob.version = ScraperProcessor.version this,
                                       attempt = attempt job + 1, date = now, processor = name this,
                                       error = None\<rparr>
                                    (jobs (database w1)) of
                               Inr js \<Rightarrow> (None, w1\<lparr>database := (database w1)\<lparr>jobs := js\<rparr>\<rparr>)
                             | Inl err' \<Rightarrow> (Some err', w1)))))
      in (thrown, w2\<lparr>currentlyProcessingUrls := currentlyProcessingUrls w2 - {url job},
                      jobProcessed := jobProcessed w2 @ [job]\<rparr>))"

section \<open>The fetcher: FetchDownloader.download\<close>

text \<open>
  What the code reads of a \<^verbatim>\<open>Response\<close>: \<^verbatim>\<open>ok\<close> (true exactly for a status from 200
  to 299), the status, its text, and the body, whose reading may fail.
\<close>

record Response =
  ok :: bool
  status :: nat
  statusText :: string
  arrayBuffer :: "error + string"

text \<open>What a download does that is seen from outside, in order.\<close>

datatype event = Acquired | Fetched string | Released

text \<open>
  Modelled from the spec: the content cache (\<^verbatim>\<open>ICache\<close> of \<^verbatim>\<open>./cache\<close>, which is not
  among the sources), a store from key to bytes with get and set.
\<close>

record FetchDownloader =
  cache :: "string \<rightharpoonup> string"
  trace :: "event list"

text \<open>
  Modelled from the spec: \<^verbatim>\<open>Semaphore.with\<close> of \<^verbatim>\<open>./helpers\<close>, which is not among the
  sources. The body runs holding one slot of the semaphore, which is freed when the body
  ends, with a value or with an error.
\<close>

definition Semaphore_with ::
  "(FetchDownloader \<Rightarrow> 'a \<times> FetchDownloader) \<Rightarrow> FetchDownloader \<Rightarrow> 'a \<times> FetchDownloader" where
  "Semaphore_with body d =
     (let (r, d') = body (d\<lparr>trace := trace d @ [Acquired]\<rparr>)
      in (r, d'\<lparr>trace := trace d' @ [Released]\<rparr>))"

text \<open>
  \<^verbatim>\<open>download\<close>; \<open>fetch\<close> is the network (\<^verbatim>\<open>fetch(url, fetchOptions)\<close>), \<open>Inl\<close> when
  the request itself fails.
\<close>

definition download ::
  "(string \<Rightarrow> error + Response) \<Rightarrow> string \<Rightarrow> FetchDownloader \<Rightarrow> (error + string) \<times> FetchDownloader" where
  "download fetch u d =
     (case cache d u of
        Some cached \<Rightarrow> (Inr cached, d)
      | None \<Rightarrow>
          Semaphore_with
            (\<lambda>d1. let d2 = d1\<lparr>trace := trace d1 @ [Fetched u]\<rparr> in
               (case fetch u of
                  Inl err \<Rightarrow> (Inl err, d2)
                | Inr response \<Rightarrow>
                    (if \<not> ok response
                     then (Inl (HttpError (status response) (statusText response) u), d2)
                     else (case arrayBuffer response of
                             Inl err \<Rightarrow> (Inl err, d2)
                           | Inr buffer \<Rightarrow> (Inr buffer, d2\<lparr>cache := (cache d2)(u \<mapsto> buffer)\<rparr>)))))
            d)"

section \<open>Example inputs\<close>

text \<open>The stage and the URL of the examples.\<close>

definition itemsStage :: ScraperProcessor where
  "itemsStage = \<lparr>name = ''items'', ScraperProcessor.version = 1, intervalMs = 1000, maxAttempts = 3\<rparr>"

text \<open>A row as the first insertion of a URL leaves it.\<close>

definition freshRow :: ProcessorJob where
  "freshRow = \<lparr>url = ''http://x/1'', ProcessorJob.version = 1, attempt = 0, date = 7,
                processor = ''items'', error = None\<rparr>"

text \<open>\<open>n\<close> such rows, with the URLs x, xx, xxx, ...\<close>

definition freshRows :: "nat \<Rightarrow> ProcessorJob list" where
  "freshRows n = map (\<lambda>i. \<lparr>url = replicate i (CHR ''x''), ProcessorJob.version = 1, attempt = 0,
                             date = int i, processor = ''items'', error = None\<rparr>) [1..<Suc n]"

text \<open>A downloader whose host is down, and one that serves an empty JSON object.\<close>

definition unreachable :: "string \<Rightarrow> error + string" where
  "unreachable u = Inl (Thrown ''fetch failed'')"

definition servesText :: "string \<Rightarrow> error + string" where
  "servesText u = Inr ''{}''"

text \<open>A parser that accepts every text; a stage whose callback rejects and one whose accepts.\<close>

definition parseAny :: "string \<Rightarrow> error + string" where
  "parseAny text = Inr text"

definition rejecting :: "string Callbacks" where
  "rejecting = \<lparr>processRaw = None, processString = None,
                 processJson = Some (\<lambda>json u. Inl (Thrown ''Invalid item''))\<rparr>"

definition accepting :: "string Callbacks" where
  "accepting = \<lparr>processRaw = None, processString = None,
                 processJson = Some (\<lambda>json u. Inr ())\<rparr>"

text \<open>A worker of the stage with one fresh row in its store and nothing in flight.\<close>

definition worker0 :: Worker where
  "worker0 = \<lparr>database = emptyDatabase\<lparr>jobs := [freshRow]\<rparr>, currentlyProcessingUrls = {},
               jobProcessed = []\<rparr>"



text \<open>The network answering 200 with a body, and answering 404.\<close>

definition fetchOk :: "string \<Rightarrow> error + Response" where
  "fetchOk u = Inr \<lparr>ok = True, status = 200, statusText = ''OK'', arrayBuffer = Inr ''{}''\<rparr>"

definition fetchNotFound :: "string \<Rightarrow> error + Response" where
  "fetchNotFound u = Inr \<lparr>ok = False, status = 404, statusText = ''Not Found'', arrayBuffer = Inr []\<rparr>"

definition fetchFails :: "string \<Rightarrow> error + Response" where
  "fetchFails u = Inl (Thrown ''fetch failed'')"

definition fetchTruncated :: "string \<Rightarrow> error + Response" where
  "fetchTruncated u =
     Inr \<lparr>ok = True, status = 200, statusText = ''OK'', arrayBuffer = Inl (Thrown ''terminated'')\<rparr>"

definition coldDownloader :: FetchDownloader where
  "coldDownloader = \<lparr>cache = Map.empty, trace = []\<rparr>"

section \<open>Properties of the job store\<close>

subsection \<open>Batch insertion\<close>

text \<open>
  After a batch insert into the in-memory store every URL of the batch has a row for the
  stage, and a batch without repeated URLs keeps the rows unique.
\<close>

lemma batchInsert_has_row:
  assumes "u \<in> set urls"
  shows "\<exists>j \<in> set (InMemory_batchInsertUrls urls p now js). url j = u \<and> processor j = name p"
proof (cases "list_ex (\<lambda>j. url j = u \<and> processor j = name p) js")
  case True
  then show ?thesis by (auto simp: InMemory_batchInsertUrls_def list_ex_iff)
next
  case False
  with assms show ?thesis
    by (auto simp: InMemory_batchInsertUrls_def Let_def image_iff
        intro!: bexI [where x = "\<lparr>url = u, ProcessorJob.version = ScraperProcessor.version p, attempt = 0,
                          date = now, processor = name p, error = None\<rparr>"])
qed

lemma batchInsert_unique:
  assumes "uniqueJobs js" and "distinct urls"
  shows "uniqueJobs (InMemory_batchInsertUrls urls p now js)"
proof -
  let ?new = "filter (\<lambda>u. \<not> list_ex (\<lambda>j. url j = u \<and> processor j = name p) js) urls"
  have keys: "map (\<lambda>j. (url j, processor j)) (InMemory_batchInsertUrls urls p now js)
      = map (\<lambda>j. (url j, processor j)) js @ map (\<lambda>u. (u, name p)) ?new"
    by (simp add: InMemory_batchInsertUrls_def comp_def)
  have d: "distinct (map (\<lambda>u. (u, name p)) ?new)"
    using assms(2) by (simp add: distinct_map inj_on_def)
  have disj: "set (map (\<lambda>j. (url j, processor j)) js) \<inter> set (map (\<lambda>u. (u, name p)) ?new) = {}"
    by (auto simp: list_ex_iff)
  show ?thesis
    unfolding uniqueJobs_def keys using assms(1) d disj
    by (simp add: uniqueJobs_def)
qed

text \<open>
  The two loops over the pending map change the rows in the same way; the loop of the
  debounced callback also emits, the loop of \<^verbatim>\<open>close\<close> does not.
\<close>

lemma closeEntries_frame:
  "pendingUrls (closeEntries ins now es db) = pendingUrls db \<and>
   newJobs (closeEntries ins now es db) = newJobs db \<and>
   flushScheduled (closeEntries ins now es db) = flushScheduled db"
  by (induction ins now es db rule: closeEntries.induct) auto

lemma flushEntries_frame:
  "pendingUrls (flushEntries ins now es db) = pendingUrls db \<and>
   newJobs (flushEntries ins now es db) = newJobs db @ map fst (filter (\<lambda>e. snd e \<noteq> []) es) \<and>
   flushScheduled (flushEntries ins now es db) = flushScheduled db"
  by (induction ins now es db rule: flushEntries.induct) auto

lemma flush_close_jobs:
  "jobs db = jobs db' \<Longrightarrow> jobs (flushEntries ins now es db) = jobs (closeEntries ins now es db')"
proof (induction es arbitrary: db db')
  case Nil
  then show ?case by simp
next
  case (Cons e es)
  obtain p urls where e: "e = (p, urls)" by (cases e)
  show ?case
  proof (cases "urls = []")
    case True
    with Cons e show ?thesis by simp
  next
    case False
    have "jobs (db\<lparr>jobs := ins urls p now (jobs db), newJobs := newJobs db @ [p]\<rparr>)
        = jobs (db'\<lparr>jobs := ins urls p now (jobs db')\<rparr>)"
      using Cons.prems by simp
    from Cons.IH [OF this] False e show ?thesis by simp
  qed
qed

text \<open>
  The loop of \<^verbatim>\<open>close\<close> over a backend whose batch insert keeps the stored rows and
  leaves a row for every URL of the batch: every pending URL ends with a row.
\<close>

lemma closeEntries_keeps_rows_any:
  assumes keeps: "\<And>urls p js j. j \<in> set js \<Longrightarrow> j \<in> set (ins urls p now js)"
  shows "j \<in> set (jobs db) \<Longrightarrow> j \<in> set (jobs (closeEntries ins now es db))"
proof (induction es arbitrary: db)
  case Nil
  then show ?case by simp
next
  case (Cons e es)
  obtain p urls where e: "e = (p, urls)" by (cases e)
  have "j \<in> set (ins urls p now (jobs db))"
    using Cons.prems by (rule keeps)
  then have "j \<in> set (jobs (closeEntries ins now es (db\<lparr>jobs := ins urls p now (jobs db)\<rparr>)))"
    by (intro Cons.IH) simp
  with Cons e show ?case by simp
qed

lemma closeEntries_inserts_any:
  assumes keeps: "\<And>urls p js j. j \<in> set js \<Longrightarrow> j \<in> set (ins urls p now js)"
      and covers: "\<And>urls p js u. u \<in> set urls \<Longrightarrow>
                     \<exists>j \<in> set (ins urls p now js). url j = u \<and> processor j = name p"
      and "(p, urls) \<in> set es" and "u \<in> set urls"
  shows "\<exists>j \<in> set (jobs (closeEntries ins now es db)). url j = u \<and> processor j = name p"
  using assms(3,4)
proof (induction es arbitrary: db)
  case Nil
  then show ?case by simp
next
  case (Cons e es)
  obtain q us where e: "e = (q, us)" by (cases e)
  show ?case
  proof (cases "e = (p, urls)")
    case True
    with e have qu: "q = p" "us = urls" by simp_all
    from Cons.prems(2) have ne: "urls \<noteq> []" by auto
    let ?db = "db\<lparr>jobs := ins urls p now (jobs db)\<rparr>"
    from covers [OF Cons.prems(2), of p "jobs db"]
    obtain j where j: "j \<in> set (jobs ?db)" "url j = u" "processor j = name p" by auto
    from closeEntries_keeps_rows_any [of ins now j ?db es, OF keeps j(1)] j(2,3) e qu ne
    show ?thesis by auto
  next
    case False
    with Cons.prems have "(p, urls) \<in> set es" by simp
    from Cons.IH [OF this Cons.prems(2)] e show ?thesis by simp
  qed
qed

lemma closeEntries_inserts:
  assumes "(p, urls) \<in> set es" and "u \<in> set urls"
  shows "\<exists>j \<in> set (jobs (closeEntries InMemory_batchInsertUrls now es db)).
           url j = u \<and> processor j = name p"
proof (rule closeEntries_inserts_any [OF _ _ assms])
  show "\<And>urls p js j. j \<in> set js \<Longrightarrow> j \<in> set (InMemory_batchInsertUrls urls p now js)"
    by (simp add: InMemory_batchInsertUrls_def)
  show "\<And>urls p js u. u \<in> set urls \<Longrightarrow>
          \<exists>j \<in> set (InMemory_batchInsertUrls urls p now js). url j = u \<and> processor j = name p"
    by (rule batchInsert_has_row)
qed

lemma BunSql_batchInsertUrls_keeps:
  "j \<in> set rows \<Longrightarrow> j \<in> set (BunSql_batchInsertUrls urls p now rows)"
  by (induction urls arbitrary: rows) auto

lemma BunSql_batchInsertUrls_has_row:
  "u \<in> set urls \<Longrightarrow>
     \<exists>j \<in> set (BunSql_batchInsertUrls urls p now rows). url j = u \<and> processor j = name p"
proof (induction urls arbitrary: rows)
  case Nil
  then show ?case by simp
next
  case (Cons v urls)
  let ?new = "\<lparr>url = v, ProcessorJob.version = ScraperProcessor.version p, attempt = 0,
                date = now, processor = name p, error = None\<rparr>"
  show ?case
  proof (cases "u = v")
    case True
    show ?thesis
    proof (cases "list_ex (\<lambda>row. url row = v \<and> processor row = name p) rows")
      case present: True
      then obtain j where "j \<in> set rows" and "url j = v" and "processor j = name p"
        by (auto simp: list_ex_iff)
      with BunSql_batchInsertUrls_keeps [of j rows "v # urls" p now] True
      show ?thesis by blast
    next
      case absent: False
      have "?new \<in> set (BunSql_batchInsertUrls urls p now (rows @ [?new]))"
        by (rule BunSql_batchInsertUrls_keeps) simp
      moreover have "url ?new = v \<and> processor ?new = name p"
        by simp
      ultimately have "\<exists>j \<in> set (BunSql_batchInsertUrls urls p now (rows @ [?new])).
          url j = v \<and> processor j = name p"
        by (rule bexI [rotated])
      with absent True show ?thesis by simp
    qed
  next
    case False
    with Cons.prems have "u \<in> set urls" by simp
    from Cons.IH [OF this] show ?thesis by simp
  qed
qed

lemma closeEntries_inserts_sql:
  assumes "(p, urls) \<in> set es" and "u \<in> set urls"
  shows "\<exists>j \<in> set (jobs (closeEntries BunSql_batchInsertUrls now es db)).
           url j = u \<and> processor j = name p"
proof (rule closeEntries_inserts_any [OF _ _ assms])
  show "\<And>urls p js j. j \<in> set js \<Longrightarrow> j \<in> set (BunSql_batchInsertUrls urls p now js)"
    by (rule BunSql_batchInsertUrls_keeps)
  show "\<And>urls p js u. u \<in> set urls \<Longrightarrow>
          \<exists>j \<in> set (BunSql_batchInsertUrls urls p now js). url j = u \<and> processor j = name p"
    by (rule BunSql_batchInsertUrls_has_row)
qed

text \<open>
  On the in-memory store: pending arrays without repeats keep the rows unique, unique rows
  hold each pair once, and a pair that has a row gets no further one.
\<close>

lemma closeEntries_unique:
  assumes "uniqueJobs (jobs db)" and "\<forall>e \<in> set es. distinct (snd e)"
  shows "uniqueJobs (jobs (closeEntries InMemory_batchInsertUrls now es db))"
  using assms
proof (induction es arbitrary: db)
  case Nil
  then show ?case by simp
next
  case (Cons e es)
  obtain q us where e: "e = (q, us)" by (cases e)
  from Cons.prems e have d: "distinct us" by simp
  have "uniqueJobs (jobs (db\<lparr>jobs := InMemory_batchInsertUrls us q now (jobs db)\<rparr>))"
    using batchInsert_unique [OF Cons.prems(1) d] by simp
  from Cons.IH [OF this] Cons.IH [OF Cons.prems(1)] Cons.prems(2) e show ?case by simp
qed

lemma unique_rowCount:
  assumes "uniqueJobs js" and "j \<in> set js" and "url j = u" and "processor j = n"
  shows "rowCount u n js = 1"
  using assms
proof (induction js)
  case Nil
  then show ?case by simp
next
  case (Cons a js)
  show ?case
  proof (cases "a = j")
    case True
    have "filter (\<lambda>j. url j = u \<and> processor j = n) js = []"
      using Cons.prems True by (auto simp: uniqueJobs_def filter_empty_conv image_iff)
    with True Cons.prems show ?thesis by (simp add: rowCount_def)
  next
    case False
    with Cons.prems have in_js: "j \<in> set js" by simp
    from Cons.prems have "uniqueJobs js" by (simp add: uniqueJobs_def)
    from Cons.IH [OF this in_js Cons.prems(3,4)] have "rowCount u n js = 1" .
    moreover have "\<not> (url a = u \<and> processor a = n)"
      using Cons.prems in_js by (auto simp: uniqueJobs_def image_iff)
    ultimately show ?thesis by (simp add: rowCount_def)
  qed
qed


lemma batchInsert_rowCount_existing:
  assumes "list_ex (\<lambda>j. url j = u \<and> processor j = n) js"
  shows "rowCount u n (InMemory_batchInsertUrls urls p now js) = rowCount u n js"
proof -
  have "filter (\<lambda>j. url j = u \<and> processor j = n)
          (map (\<lambda>u. \<lparr>url = u, ProcessorJob.version = ScraperProcessor.version p, attempt = 0,
                       date = now, processor = name p, error = None\<rparr>)
             (filter (\<lambda>u. \<not> list_ex (\<lambda>j. url j = u \<and> processor j = name p) js) urls)) = []"
    using assms by (auto simp: filter_empty_conv)
  then show ?thesis
    by (simp add: rowCount_def InMemory_batchInsertUrls_def)
qed

lemma closeEntries_rowCount_existing:
  assumes "list_ex (\<lambda>j. url j = u \<and> processor j = n) (jobs db)"
  shows "rowCount u n (jobs (closeEntries InMemory_batchInsertUrls now es db)) = rowCount u n (jobs db)"
  using assms
proof (induction es arbitrary: db)
  case Nil
  then show ?case by simp
next
  case (Cons e es)
  obtain q us where e: "e = (q, us)" by (cases e)
  let ?db = "db\<lparr>jobs := InMemory_batchInsertUrls us q now (jobs db)\<rparr>"
  have "list_ex (\<lambda>j. url j = u \<and> processor j = n) (jobs ?db)"
    using Cons.prems by (auto simp: InMemory_batchInsertUrls_def list_ex_iff)
  from Cons.IH [OF this] Cons.IH [OF Cons.prems] batchInsert_rowCount_existing [OF Cons.prems] e
  show ?case by simp
qed

lemma insertManyUrlsWrapper_jobs:
  "jobs (insertManyUrlsWrapper ins now db) = jobs (closeEntries ins now (pendingUrls db) db)"
  using flush_close_jobs [of db db ins now "pendingUrls db"]
  by (simp add: insertManyUrlsWrapper_def)

lemma map_of_map_set: "map_of (map_set k v m) k = Some v"
  by (induction m) auto


text \<open>
  The SQL store keeps its rows unique whatever the batch holds: the primary key drops a URL
  that is repeated inside the batch as well.
\<close>

lemma BunSql_batchInsertUrls_unique:
  "uniqueJobs rows \<Longrightarrow> uniqueJobs (BunSql_batchInsertUrls urls p now rows)"
proof (induction urls arbitrary: rows)
  case Nil
  then show ?case by simp
next
  case (Cons u urls)
  show ?case
  proof (cases "list_ex (\<lambda>row. url row = u \<and> processor row = name p) rows")
    case True
    with Cons show ?thesis by simp
  next
    case False
    let ?new = "\<lparr>url = u, ProcessorJob.version = ScraperProcessor.version p, attempt = 0,
                  date = now, processor = name p, error = None\<rparr>"
    from False Cons.prems have "uniqueJobs (rows @ [?new])"
      by (auto simp: uniqueJobs_def list_ex_iff)
    from Cons.IH [OF this] False show ?thesis by simp
  qed
qed

lemma BunSql_batchInsertUrls_repeated:
  "BunSql_batchInsertUrls [''http://x/1'', ''http://x/1''] itemsStage 7 [] = [freshRow]"
  by (simp add: itemsStage_def freshRow_def)

subsection \<open>Repeated URLs and the flush\<close>

text \<open>
  \<^verbatim>\<open>add\<close> appends to the pending array of its stage and touches nothing else: the
  pending arrays of the other stages, the rows and the events are as before.
\<close>

lemma map_of_map_set_other: "k' \<noteq> k \<Longrightarrow> map_of (map_set k v m) k' = map_of m k'"
  by (induction m) auto

lemma add_frame:
  "(q \<noteq> p \<longrightarrow> map_of (pendingUrls (add urls p db)) q = map_of (pendingUrls db) q) \<and>
   jobs (add urls p db) = jobs db \<and> newJobs (add urls p db) = newJobs db"
  by (simp add: add_def Let_def map_of_map_set_other)

text \<open>
  What the flush of the in-memory store does give. \<^verbatim>\<open>add\<close> drops no URL, also not one
  that is already pending. The flush leaves a row for every pending (stage, URL) pair and
  adds none for a pair that had one; it leaves exactly one row for a pending pair when the
  stored rows were unique and no pending array repeats a URL.
\<close>

lemma InMemory_flush_rows:
  "map_of (pendingUrls (add urls p db)) p =
     Some ((case map_of (pendingUrls db) p of None \<Rightarrow> [] | Some us \<Rightarrow> us) @
           (case urls of Single u \<Rightarrow> [u] | Many us \<Rightarrow> us)) \<and>
   ((q, qs) \<in> set (pendingUrls db) \<and> u \<in> set qs \<longrightarrow>
      1 \<le> rowCount u (name q) (jobs (insertManyUrlsWrapper InMemory_batchInsertUrls now db))) \<and>
   (1 \<le> rowCount u n (jobs db) \<longrightarrow>
      rowCount u n (jobs (insertManyUrlsWrapper InMemory_batchInsertUrls now db)) = rowCount u n (jobs db)) \<and>
   (uniqueJobs (jobs db) \<and> (\<forall>e \<in> set (pendingUrls db). distinct (snd e)) \<and>
    (q, qs) \<in> set (pendingUrls db) \<and> u \<in> set qs \<longrightarrow>
      rowCount u (name q) (jobs (insertManyUrlsWrapper InMemory_batchInsertUrls now db)) = 1)"
proof (intro conjI impI)
  show "map_of (pendingUrls (add urls p db)) p =
     Some ((case map_of (pendingUrls db) p of None \<Rightarrow> [] | Some us \<Rightarrow> us) @
           (case urls of Single u \<Rightarrow> [u] | Many us \<Rightarrow> us))"
    by (cases urls) (simp_all add: add_def Let_def map_of_map_set)
next
  assume a: "(q, qs) \<in> set (pendingUrls db) \<and> u \<in> set qs"
  then obtain j where "j \<in> set (jobs (closeEntries InMemory_batchInsertUrls now (pendingUrls db) db))"
      and "url j = u \<and> processor j = name q"
    using closeEntries_inserts [of q qs "pendingUrls db" u now db] by blast
  then have "filter (\<lambda>j. url j = u \<and> processor j = name q)
               (jobs (closeEntries InMemory_batchInsertUrls now (pendingUrls db) db)) \<noteq> []"
    by (auto simp: filter_empty_conv)
  then show "1 \<le> rowCount u (name q) (jobs (insertManyUrlsWrapper InMemory_batchInsertUrls now db))"
    by (simp add: insertManyUrlsWrapper_jobs rowCount_def Suc_le_eq)
next
  assume "1 \<le> rowCount u n (jobs db)"
  then have "filter (\<lambda>j. url j = u \<and> processor j = n) (jobs db) \<noteq> []"
    by (auto simp: rowCount_def)
  then have "list_ex (\<lambda>j. url j = u \<and> processor j = n) (jobs db)"
    by (auto simp: filter_empty_conv list_ex_iff)
  then show "rowCount u n (jobs (insertManyUrlsWrapper InMemory_batchInsertUrls now db)) = rowCount u n (jobs db)"
    by (simp add: insertManyUrlsWrapper_jobs closeEntries_rowCount_existing)
next
  assume a: "uniqueJobs (jobs db) \<and> (\<forall>e \<in> set (pendingUrls db). distinct (snd e)) \<and>
    (q, qs) \<in> set (pendingUrls db) \<and> u \<in> set qs"
  let ?js = "jobs (closeEntries InMemory_batchInsertUrls now (pendingUrls db) db)"
  from a have uniq: "uniqueJobs ?js"
    using closeEntries_unique [of db "pendingUrls db" now] by blast
  from a obtain j where "j \<in> set ?js" and "url j = u" and "processor j = name q"
    using closeEntries_inserts [of q qs "pendingUrls db" u now db] by blast
  from unique_rowCount [OF uniq this]
  show "rowCount u (name q) (jobs (insertManyUrlsWrapper InMemory_batchInsertUrls now db)) = 1"
    by (simp add: insertManyUrlsWrapper_jobs)
qed

text \<open>
  The flush of the SQL store leaves exactly one row for every pending pair whatever the
  pending arrays hold, repeats included, when the stored rows were unique.
\<close>

lemma closeEntries_unique_sql:
  "uniqueJobs (jobs db) \<Longrightarrow> uniqueJobs (jobs (closeEntries BunSql_batchInsertUrls now es db))"
proof (induction es arbitrary: db)
  case Nil
  then show ?case by simp
next
  case (Cons e es)
  obtain q us where e: "e = (q, us)" by (cases e)
  have "uniqueJobs (jobs (db\<lparr>jobs := BunSql_batchInsertUrls us q now (jobs db)\<rparr>))"
    using BunSql_batchInsertUrls_unique [OF Cons.prems] by simp
  from Cons.IH [OF this] Cons.IH [OF Cons.prems] e show ?case by simp
qed

lemma BunSql_flush_exactly_one:
  assumes "uniqueJobs (jobs db)" and "(q, qs) \<in> set (pendingUrls db)" and "u \<in> set qs"
  shows "rowCount u (name q) (jobs (insertManyUrlsWrapper BunSql_batchInsertUrls now db)) = 1"
proof -
  let ?js = "jobs (closeEntries BunSql_batchInsertUrls now (pendingUrls db) db)"
  have uniq: "uniqueJobs ?js"
    using assms(1) by (rule closeEntries_unique_sql)
  obtain j where "j \<in> set ?js" and "url j = u" and "processor j = name q"
    using closeEntries_inserts_sql [OF assms(2,3), of now db] by blast
  from unique_rowCount [OF uniq this] show ?thesis
    by (simp add: insertManyUrlsWrapper_jobs)
qed

text \<open>
  C1. Evaluated: the same URL is added twice to one stage before the debounced trigger
  fires. \<^verbatim>\<open>add\<close> keeps both in the pending array, and the in-memory store, which
  compares a batch with the stored rows only, then holds two rows for the one pair. The
  SQL store, given the same pending array, holds one.
\<close>

theorem add_twice_in_one_window:
  "pendingUrls (add (Single ''http://x/1'') itemsStage (add (Single ''http://x/1'') itemsStage emptyDatabase))
     = [(itemsStage, [''http://x/1'', ''http://x/1''])] \<and>
   rowCount ''http://x/1'' ''items''
     (jobs (debounceFires InMemory_batchInsertUrls 7
        (add (Single ''http://x/1'') itemsStage (add (Single ''http://x/1'') itemsStage emptyDatabase)))) = 2 \<and>
   rowCount ''http://x/1'' ''items''
     (jobs (debounceFires BunSql_batchInsertUrls 7
        (add (Single ''http://x/1'') itemsStage (add (Single ''http://x/1'') itemsStage emptyDatabase)))) = 1"
  by (simp add: add_def emptyDatabase_def itemsStage_def debounceFires_def insertManyUrlsWrapper_def
      InMemory_batchInsertUrls_def rowCount_def)

subsection \<open>Closing the store\<close>

text \<open>
  C10. After \<^verbatim>\<open>close\<close> the pending map is empty and no \<^verbatim>\<open>NEW_JOBS\<close> event has been
  emitted, whatever the backend's \<^verbatim>\<open>batchInsertUrls\<close>; on the in-memory store and on
  the SQL store every URL that was pending has a row. The debounced callback, given the same state, emits one
  event for every processor with a non-empty pending array; a trigger that is still
  scheduled when \<^verbatim>\<open>close\<close> runs finds the map empty afterwards and emits nothing.
\<close>

theorem close_inserts_without_notification:
  "pendingUrls (close ins now db) = [] \<and>
   newJobs (close ins now db) = newJobs db \<and>
   (\<forall>e \<in> set (pendingUrls db). \<forall>u \<in> set (snd e).
      \<exists>j \<in> set (jobs (close InMemory_batchInsertUrls now db)). url j = u \<and> processor j = name (fst e)) \<and>
   (\<forall>e \<in> set (pendingUrls db). \<forall>u \<in> set (snd e).
      \<exists>j \<in> set (jobs (close BunSql_batchInsertUrls now db)). url j = u \<and> processor j = name (fst e)) \<and>
   newJobs (insertManyUrlsWrapper ins now db) =
     newJobs db @ map fst (filter (\<lambda>e. snd e \<noteq> []) (pendingUrls db)) \<and>
   newJobs (debounceFires ins later (close ins now db)) = newJobs db"
proof (intro conjI ballI)
  show "pendingUrls (close ins now db) = []"
    by (simp add: close_def)
  show "newJobs (debounceFires ins later (close ins now db)) = newJobs db"
    by (simp add: debounceFires_def insertManyUrlsWrapper_def close_def closeEntries_frame)
  show "newJobs (close ins now db) = newJobs db"
    by (simp add: close_def closeEntries_frame)
  show "newJobs (insertManyUrlsWrapper ins now db) =
     newJobs db @ map fst (filter (\<lambda>e. snd e \<noteq> []) (pendingUrls db))"
    by (simp add: insertManyUrlsWrapper_def flushEntries_frame)
next
  fix e u
  assume "e \<in> set (pendingUrls db)" and "u \<in> set (snd e)"
  then show "\<exists>j \<in> set (jobs (close InMemory_batchInsertUrls now db)). url j = u \<and> processor j = name (fst e)"
    using closeEntries_inserts [of "fst e" "snd e" "pendingUrls db" u now db]
    by (simp add: close_def)
next
  fix e u
  assume "e \<in> set (pendingUrls db)" and "u \<in> set (snd e)"
  then show "\<exists>j \<in> set (jobs (close BunSql_batchInsertUrls now db)). url j = u \<and> processor j = name (fst e)"
    using closeEntries_inserts_sql [of "fst e" "snd e" "pendingUrls db" u now db]
    by (simp add: close_def)
qed

theorem close_inserts_without_notification_witness:
  "pendingUrls (close InMemory_batchInsertUrls 7 (add (Single ''http://x/1'') itemsStage emptyDatabase)) = [] \<and>
   newJobs (close InMemory_batchInsertUrls 7 (add (Single ''http://x/1'') itemsStage emptyDatabase)) = [] \<and>
   (\<exists>j \<in> set (jobs (close InMemory_batchInsertUrls 7 (add (Single ''http://x/1'') itemsStage emptyDatabase))).
      url j = ''http://x/1'' \<and> processor j = ''items'') \<and>
   (\<exists>j \<in> set (jobs (close BunSql_batchInsertUrls 7 (add (Single ''http://x/1'') itemsStage emptyDatabase))).
      url j = ''http://x/1'' \<and> processor j = ''items'') \<and>
   newJobs (insertManyUrlsWrapper InMemory_batchInsertUrls 7 (add (Single ''http://x/1'') itemsStage emptyDatabase))
     = [itemsStage] \<and>
   newJobs (debounceFires InMemory_batchInsertUrls 9
      (close InMemory_batchInsertUrls 7 (add (Single ''http://x/1'') itemsStage emptyDatabase))) = []"
  using close_inserts_without_notification [of InMemory_batchInsertUrls 7
      "add (Single ''http://x/1'') itemsStage emptyDatabase" 9]
  by (simp add: add_def emptyDatabase_def itemsStage_def)


section \<open>Properties of the due-job query\<close>

text \<open>
  The in-memory query returns a stored row exactly when the row belongs to the stage, meets
  one of the four conditions (with a non-empty error for the retry condition) and is not in
  flight.
\<close>

lemma InMemory_query_iff:
  "job \<in> set (InMemory_query p inFlight now js) \<longleftrightarrow>
     job \<in> set js \<and> processor job = name p \<and>
     (attempt job = 0 \<or>
      (truthy (error job) \<and> attempt job < maxAttempts p) \<or>
      ProcessorJob.version job \<noteq> ScraperProcessor.version p \<or>
      date job < now - intervalMs p) \<and>
     url job \<notin> inFlight"
  by (auto simp: InMemory_query_def)

text \<open>
  A row that has used up its attempts is returned only through the version or the
  interval condition.
\<close>

lemma InMemory_query_exhausted:
  assumes "maxAttempts p \<le> attempt job" and "attempt job \<noteq> 0"
      and "ProcessorJob.version job = ScraperProcessor.version p"
      and "now - intervalMs p \<le> date job"
  shows "job \<notin> set (InMemory_query p inFlight now js)"
  using assms by (auto simp: InMemory_query_def)

text \<open>
  The SQL query returns at most 20 rows, oldest first, each of them a row of the stage that
  meets one of the four conditions.
\<close>

lemma BunSql_query_bounded_sorted:
  "length (BunSql_query p inFlight now rows) \<le> 20 \<and>
   sorted (map date (BunSql_query p inFlight now rows)) \<and>
   set (BunSql_query p inFlight now rows) \<subseteq> {row \<in> set rows. BunSql_where p now row}"
proof (intro conjI)
  show "length (BunSql_query p inFlight now rows) \<le> 20"
    by simp
  have "sorted (map date (sort_key date (filter (BunSql_where p now) rows)))"
    by (rule sorted_sort_key)
  then have "sorted (take 20 (map date (sort_key date (filter (BunSql_where p now) rows))))"
    by (rule sorted_wrt_take)
  then show "sorted (map date (BunSql_query p inFlight now rows))"
    by (simp add: take_map)
  have "set (take 20 (sort_key date (filter (BunSql_where p now) rows)))
          \<subseteq> set (sort_key date (filter (BunSql_where p now) rows))"
    by (rule set_take_subset)
  then show "set (BunSql_query p inFlight now rows) \<subseteq> {row \<in> set rows. BunSql_where p now row}"
    by auto
qed

text \<open>
  C4. Evaluated on the SQL store: a fresh row whose URL is in the in-flight set passed to
  the query is returned all the same; the in-memory store leaves it out.
\<close>

theorem BunSql_query_ignores_in_flight:
  "BunSql_query itemsStage {''http://x/1''} 50 [freshRow] = [freshRow] \<and>
   InMemory_query itemsStage {''http://x/1''} 50 [freshRow] = []"
  by (simp add: freshRow_def itemsStage_def InMemory_query_def)

text \<open>
  C5. Evaluated on the in-memory store: 21 due rows are all returned, and two due rows
  come back in storage order, the newer one first.
\<close>

theorem InMemory_query_unbounded_unsorted:
  "length (InMemory_query itemsStage {} 50 (freshRows 21)) = 21 \<and>
   map date (InMemory_query itemsStage {} 2000
      [freshRow\<lparr>attempt := 1, date := 200\<rparr>,
       freshRow\<lparr>url := ''http://x/2'', attempt := 1, date := 150\<rparr>]) = [200, 150]"
  by (simp add: InMemory_query_def freshRows_def freshRow_def itemsStage_def comp_def)

section \<open>Properties of the outcome update\<close>

lemma find_assignFirst:
  assumes "find P xs = Some x" and "\<And>y. P (f y) = P y"
  shows "find P (assignFirst P f xs) = Some (f x)"
  using assms by (induction xs) (auto split: if_splits)

lemma map_assignFirst:
  assumes "\<And>y. g (f y) = g y"
  shows "map g (assignFirst P f xs) = map g xs"
  using assms by (induction xs) auto

text \<open>
  The in-memory update fails when no row has the job's URL and processor; otherwise it
  overwrites the version, attempt, date and error of the first such row and nothing else.
\<close>

lemma InMemory_update_not_found:
  assumes "\<not> list_ex (\<lambda>j. url j = url job \<and> processor j = processor job) js"
  shows "InMemory_update job js = Inl (JobNotFound (url job) (processor job))"
proof -
  have "find (\<lambda>j. url j = url job \<and> processor j = processor job) js = None"
    using assms by (simp add: find_None_iff list_ex_iff)
  then show ?thesis by (simp add: InMemory_update_def)
qed

lemma InMemory_update_found:
  assumes "find (\<lambda>j. url j = url job \<and> processor j = processor job) js = Some row"
  shows "\<exists>js'. InMemory_update job js = Inr js' \<and>
           find (\<lambda>j. url j = url job \<and> processor j = processor job) js' =
             Some (row\<lparr>ProcessorJob.version := ProcessorJob.version job, attempt := attempt job,
                        date := date job, error := error job\<rparr>) \<and>
           map url js' = map url js \<and> map processor js' = map processor js"
  using assms
  by (simp add: InMemory_update_def find_assignFirst map_assignFirst)

text \<open>The SQL update resolves whatever the table holds.\<close>

lemma BunSql_update_never_fails: "\<exists>rows'. BunSql_update job rows = Inr rows'"
  by (simp add: BunSql_update_def)

text \<open>
  C6. Evaluated on the SQL store: an outcome report for a pair that has no row resolves and
  changes nothing; on the in-memory store the same report fails.
\<close>

theorem BunSql_update_missing_row:
  "BunSql_update freshRow [] = Inr [] \<and>
   InMemory_update freshRow [] = Inl (JobNotFound ''http://x/1'' ''items'')"
  by (simp add: BunSql_update_def InMemory_update_def freshRow_def)


section \<open>Properties of the worker\<close>

text \<open>
  A failed download without \<^verbatim>\<open>rethrow\<close>: the call resolves, the store is not touched,
  the URL leaves the in-flight set and the event is emitted.
\<close>

lemma processJob_download_failure:
  assumes "dl (url job) = Inl err"
  shows "processJob this upd dl cbs parse now job False w =
           (None, w\<lparr>currentlyProcessingUrls := currentlyProcessingUrls w - {url job},
                     jobProcessed := jobProcessed w @ [job]\<rparr>)"
  using assms by (simp add: processJob_def)

text \<open>
  A failed callback without \<^verbatim>\<open>rethrow\<close>, on the in-memory store: the row gets the
  job's attempt plus one, the stage's version and the clock reading, and no error.
\<close>

lemma processJob_callback_failure:
  assumes "dl (url job) = Inr data"
      and "processData cbs parse (url job) data = Inl err"
      and "find (\<lambda>j. url j = url job \<and> processor j = name this) (jobs (database w)) = Some row"
  shows "fst (processJob this InMemory_update dl cbs parse now job False w) = None \<and>
         find (\<lambda>j. url j = url job \<and> processor j = name this)
           (jobs (database (snd (processJob this InMemory_update dl cbs parse now job False w)))) =
           Some (row\<lparr>ProcessorJob.version := ScraperProcessor.version this, attempt := attempt job + 1,
                      date := now, error := None\<rparr>)"
proof -
  let ?report = "\<lparr>url = url job, ProcessorJob.version = ScraperProcessor.version this,
                   attempt = attempt job + 1, date = now, processor = name this, error = None\<rparr>"
  from InMemory_update_found [of ?report "jobs (database w)" row] assms(3)
  obtain js' where "InMemory_update ?report (jobs (database w)) = Inr js'"
    and "find (\<lambda>j. url j = url job \<and> processor j = name this) js' =
           Some (row\<lparr>ProcessorJob.version := ScraperProcessor.version this, attempt := attempt job + 1,
                      date := now, error := None\<rparr>)"
    by auto
  with assms(1,2) show ?thesis by (simp add: processJob_def)
qed

text \<open>
  C2. Evaluated: the download of a fresh job fails and fail-fast is off. The call
  resolves and the worker goes on, but no outcome is written: the row keeps attempt 0 and
  the next query returns it again.
\<close>

theorem download_failure_writes_nothing:
  "processJob itemsStage InMemory_update unreachable accepting parseAny 50 freshRow False worker0
     = (None, worker0\<lparr>jobProcessed := [freshRow]\<rparr>) \<and>
   InMemory_query itemsStage {} 50
     (jobs (database (snd
        (processJob itemsStage InMemory_update unreachable accepting parseAny 50 freshRow False worker0))))
     = [freshRow]"
  by (simp add: processJob_def freshRow_def unreachable_def accepting_def parseAny_def worker0_def
      itemsStage_def emptyDatabase_def InMemory_query_def)

text \<open>
  C3. Evaluated: the callback of a fresh job throws \<^verbatim>\<open>Invalid item\<close> and fail-fast
  is off. The row gets attempt 1 and the new date, but its error stays unset, so the
  retry condition of the query never holds for it.
\<close>

theorem callback_failure_sets_no_error:
  "processJob itemsStage InMemory_update servesText rejecting parseAny 50 freshRow False worker0
     = (None, worker0\<lparr>database := emptyDatabase\<lparr>jobs := [freshRow\<lparr>attempt := 1, date := 50\<rparr>]\<rparr>,
                      jobProcessed := [freshRow]\<rparr>) \<and>
   error (freshRow\<lparr>attempt := 1, date := 50\<rparr>) = None \<and>
   InMemory_query itemsStage {} 51 [freshRow\<lparr>attempt := 1, date := 50\<rparr>] = []"
  by (simp add: processJob_def processData_def InMemory_update_def freshRow_def servesText_def
      rejecting_def parseAny_def worker0_def itemsStage_def emptyDatabase_def InMemory_query_def)

text \<open>
  On the in-memory store: when the download and every configured callback succeed and the
  store has a row for the job's URL and the stage, \<^verbatim>\<open>processJob\<close> resolves, with or
  without \<^verbatim>\<open>rethrow\<close>, and that row now has attempt 1, the stage's version, the clock
  reading as date and no error; the URLs and the processor names of all rows are as before.
\<close>

lemma InMemory_success_outcome:
  assumes "dl (url job) = Inr data"
      and "processData cbs parse (url job) data = Inr ()"
      and "find (\<lambda>j. url j = url job \<and> processor j = name this) (jobs (database w)) = Some row"
  shows "fst (processJob this InMemory_update dl cbs parse now job rethrow w) = None \<and>
         find (\<lambda>j. url j = url job \<and> processor j = name this)
           (jobs (database (snd (processJob this InMemory_update dl cbs parse now job rethrow w)))) =
           Some (row\<lparr>ProcessorJob.version := ScraperProcessor.version this, attempt := 1,
                      date := now, error := None\<rparr>) \<and>
         map url (jobs (database (snd (processJob this InMemory_update dl cbs parse now job rethrow w))))
           = map url (jobs (database w)) \<and>
         map processor (jobs (database (snd (processJob this InMemory_update dl cbs parse now job rethrow w))))
           = map processor (jobs (database w))"
proof -
  let ?report = "\<lparr>url = url job, ProcessorJob.version = ScraperProcessor.version this,
                   attempt = 1, date = now, processor = name this, error = None\<rparr>"
  from InMemory_update_found [of ?report "jobs (database w)" row] assms(3)
  obtain js' where "InMemory_update ?report (jobs (database w)) = Inr js'"
    and "find (\<lambda>j. url j = url job \<and> processor j = name this) js' =
           Some (row\<lparr>ProcessorJob.version := ScraperProcessor.version this, attempt := 1,
                      date := now, error := None\<rparr>)"
    and "map url js' = map url (jobs (database w))"
    and "map processor js' = map processor (jobs (database w))"
    by auto
  with assms(1,2) show ?thesis by (simp add: processJob_def)
qed


section \<open>Properties of the fetcher\<close>

text \<open>
  C8. On a cache hit \<^verbatim>\<open>download\<close> returns the cached bytes and does nothing else: no
  slot is taken and nothing is fetched. On a miss it fetches once, between taking and
  freeing a slot of the semaphore. When the response is ok and its body can be read, the
  bytes are returned and are in the cache afterwards. When the request fails, the response
  is not ok or the body cannot be read, the call fails with that error and the cache is as
  it was.
\<close>

theorem download_cache_policy:
  "(cache d u = Some b \<longrightarrow> download fetch u d = (Inr b, d)) \<and>
   (cache d u = None \<longrightarrow>
      trace (snd (download fetch u d)) = trace d @ [Acquired, Fetched u, Released]) \<and>
   (cache d u = None \<and> fetch u = Inr r \<and> ok r \<and> arrayBuffer r = Inr b \<longrightarrow>
      fst (download fetch u d) = Inr b \<and> cache (snd (download fetch u d)) = (cache d)(u \<mapsto> b)) \<and>
   (cache d u = None \<and> fetch u = Inr r \<and> \<not> ok r \<longrightarrow>
      fst (download fetch u d) = Inl (HttpError (status r) (statusText r) u) \<and>
      cache (snd (download fetch u d)) = cache d) \<and>
   (cache d u = None \<and> fetch u = Inl e \<longrightarrow>
      fst (download fetch u d) = Inl e \<and> cache (snd (download fetch u d)) = cache d) \<and>
   (cache d u = None \<and> fetch u = Inr r \<and> ok r \<and> arrayBuffer r = Inl e \<longrightarrow>
      fst (download fetch u d) = Inl e \<and> cache (snd (download fetch u d)) = cache d)"
proof (intro conjI impI)
  assume "cache d u = Some b"
  then show "download fetch u d = (Inr b, d)"
    by (simp add: download_def)
next
  assume "cache d u = None"
  then show "trace (snd (download fetch u d)) = trace d @ [Acquired, Fetched u, Released]"
    by (simp add: download_def Semaphore_with_def Let_def split: sum.splits)
next
  assume a: "cache d u = None \<and> fetch u = Inr r \<and> ok r \<and> arrayBuffer r = Inr b"
  then show "fst (download fetch u d) = Inr b"
    by (simp add: download_def Semaphore_with_def)
  from a show "cache (snd (download fetch u d)) = (cache d)(u \<mapsto> b)"
    by (simp add: download_def Semaphore_with_def)
next
  assume a: "cache d u = None \<and> fetch u = Inr r \<and> \<not> ok r"
  then show "fst (download fetch u d) = Inl (HttpError (status r) (statusText r) u)"
    by (simp add: download_def Semaphore_with_def)
  from a show "cache (snd (download fetch u d)) = cache d"
    by (simp add: download_def Semaphore_with_def)
next
  assume a: "cache d u = None \<and> fetch u = Inl e"
  then show "fst (download fetch u d) = Inl e"
    by (simp add: download_def Semaphore_with_def)
  from a show "cache (snd (download fetch u d)) = cache d"
    by (simp add: download_def Semaphore_with_def)
next
  assume a: "cache d u = None \<and> fetch u = Inr r \<and> ok r \<and> arrayBuffer r = Inl e"
  then show "fst (download fetch u d) = Inl e"
    by (simp add: download_def Semaphore_with_def)
  from a show "cache (snd (download fetch u d)) = cache d"
    by (simp add: download_def Semaphore_with_def)
qed

theorem download_cache_policy_witness:
  "download fetchOk ''http://x/1'' coldDownloader =
     (Inr ''{}'', \<lparr>cache = [''http://x/1'' \<mapsto> ''{}''],
                  trace = [Acquired, Fetched ''http://x/1'', Released]\<rparr>) \<and>
   download fetchNotFound ''http://x/1'' (snd (download fetchOk ''http://x/1'' coldDownloader)) =
     (Inr ''{}'', snd (download fetchOk ''http://x/1'' coldDownloader)) \<and>
   fst (download fetchNotFound ''http://x/1'' coldDownloader) =
     Inl (HttpError 404 ''Not Found'' ''http://x/1'') \<and>
   cache (snd (download fetchNotFound ''http://x/1'' coldDownloader)) ''http://x/1'' = None \<and>
   fst (download fetchFails ''http://x/1'' coldDownloader) = Inl (Thrown ''fetch failed'') \<and>
   cache (snd (download fetchFails ''http://x/1'' coldDownloader)) ''http://x/1'' = None \<and>
   fst (download fetchTruncated ''http://x/1'' coldDownloader) = Inl (Thrown ''terminated'') \<and>
   cache (snd (download fetchTruncated ''http://x/1'' coldDownloader)) ''http://x/1'' = None"
proof -
  let ?u = "''http://x/1''"
  let ?warm = "\<lparr>cache = [?u \<mapsto> ''{}''], trace = [Acquired, Fetched ?u, Released]\<rparr>"
  have cold: "cache coldDownloader ?u = None"
    by (simp add: coldDownloader_def)
  have warm: "cache ?warm ?u = Some ''{}''"
    by simp
  note miss = download_cache_policy [where d = coldDownloader and u = ?u]
  have okr: "fetchOk ?u = Inr \<lparr>ok = True, status = 200, statusText = ''OK'', arrayBuffer = Inr ''{}''\<rparr>"
    by (simp add: fetchOk_def)
  have nf: "fetchNotFound ?u = Inr \<lparr>ok = False, status = 404, statusText = ''Not Found'', arrayBuffer = Inr []\<rparr>"
    by (simp add: fetchNotFound_def)
  have down: "fetchFails ?u = Inl (Thrown ''fetch failed'')"
    by (simp add: fetchFails_def)
  have 1: "download fetchOk ?u coldDownloader = (Inr ''{}'', ?warm)"
    using miss [where fetch = fetchOk and b = "''{}''"
        and r = "\<lparr>ok = True, status = 200, statusText = ''OK'', arrayBuffer = Inr ''{}''\<rparr>"] cold okr
    by (simp add: prod_eq_iff coldDownloader_def)
  have 2: "download fetchNotFound ?u ?warm = (Inr ''{}'', ?warm)"
    using download_cache_policy [where d = ?warm and u = ?u and b = "''{}''" and fetch = fetchNotFound] warm
    by simp
  have 3: "fst (download fetchNotFound ?u coldDownloader) = Inl (HttpError 404 ''Not Found'' ?u) \<and>
           cache (snd (download fetchNotFound ?u coldDownloader)) ?u = None"
    using miss [where fetch = fetchNotFound
        and r = "\<lparr>ok = False, status = 404, statusText = ''Not Found'', arrayBuffer = Inr []\<rparr>"] cold nf
    by simp
  have 4: "fst (download fetchFails ?u coldDownloader) = Inl (Thrown ''fetch failed'') \<and>
           cache (snd (download fetchFails ?u coldDownloader)) ?u = None"
    using miss [where fetch = fetchFails and e = "Thrown ''fetch failed''"] cold down
    by simp
  have tr: "fetchTruncated ?u =
      Inr \<lparr>ok = True, status = 200, statusText = ''OK'', arrayBuffer = Inl (Thrown ''terminated'')\<rparr>"
    by (simp add: fetchTruncated_def)
  have 5: "fst (download fetchTruncated ?u coldDownloader) = Inl (Thrown ''terminated'') \<and>
           cache (snd (download fetchTruncated ?u coldDownloader)) ?u = None"
    using miss [where fetch = fetchTruncated and e = "Thrown ''terminated''"
        and r = "\<lparr>ok = True, status = 200, statusText = ''OK'', arrayBuffer = Inl (Thrown ''terminated'')\<rparr>"]
      cold tr
    by simp
  from 1 2 3 4 5 show ?thesis by simp
qed

end
